theory Spec2Isabelle
  imports Complex_Main
begin

section \<open>Data model of the worker\<close>

text \<open>
  The theory embeds \<^verbatim>\<open>worker.py\<close>: the sampler \<^verbatim>\<open>compute_future_samples\<close>, the
  current-position fix \<^verbatim>\<open>calculate_satellite_position\<close> and the cycle
  \<^verbatim>\<open>fetch_and_calculate\<close>.

  An instant (a Python \<^verbatim>\<open>datetime\<close> in UTC) is an integer number of microseconds, the
  resolution of \<^verbatim>\<open>datetime\<close>; \<^verbatim>\<open>timedelta(seconds=s)\<close> for an integer \<^verbatim>\<open>s\<close> is
  \<open>s * 1000000\<close> of them. The range limits of \<^verbatim>\<open>datetime\<close> (years 1 to 9999) are not
  modelled. The key \<^verbatim>\<open>"t"\<close> of a sample holds \<^verbatim>\<open>t_dt.isoformat()\<close>, a printed form of the
  instant \<^verbatim>\<open>t_dt\<close>; the model keeps the instant itself. Coordinates are the numbers
  Skyfield returns, taken as reals: the worker only copies them (\<^verbatim>\<open>float(lon)\<close> is the
  identity on a float).
\<close>

type_synonym instant = int

datatype error = ZeroDivisionError | Exception string

text \<open>The \<^verbatim>\<open>EarthSatellite\<close> object built from the two lines of an element set.\<close>

datatype satellite = Satellite string string

text \<open>A geographic subpoint: \<^verbatim>\<open>latitude.degrees\<close>, \<^verbatim>\<open>longitude.degrees\<close>, \<^verbatim>\<open>elevation.km\<close>.\<close>

record geographic =
  latitude_degrees :: real
  longitude_degrees :: real
  elevation_km :: real

text \<open>One dictionary of the list returned by \<^verbatim>\<open>compute_future_samples\<close>.\<close>

record sample =
  t_iso :: instant
  lat :: real
  lon :: real
  alt_km :: real

text \<open>One row of the query of \<^verbatim>\<open>fetch_and_calculate\<close>.\<close>

record row =
  satellite_db_id :: int
  name :: string
  norad_cat_id :: int
  line1 :: string
  line2 :: string

text \<open>The dictionary returned by \<^verbatim>\<open>calculate_satellite_position\<close>.\<close>

record pos_data =
  eci_pos :: "real \<times> real \<times> real"
  geo_pos :: "real \<times> real \<times> real"

text \<open>
  One dictionary of \<^verbatim>\<open>satellites_data\<close>; the keys \<^verbatim>\<open>"id"\<close> and \<^verbatim>\<open>"name"\<close> are
  \<open>sat_id\<close> and \<open>sat_name\<close> here.
\<close>

record entry =
  sat_id :: int
  sat_name :: string
  norad_id :: int
  latitude :: real
  longitude :: real
  altitude :: real
  eci :: "real \<times> real \<times> real"
  samples :: "sample list"

text \<open>The two functions that call the constructor \<^verbatim>\<open>EarthSatellite\<close>.\<close>

datatype caller = In_calculate_satellite_position | In_compute_future_samples

text \<open>
  Everything outside the worker is an input of the model: the Skyfield calls, which may
  raise (the constructor may behave differently in its two callers), the readings of the
  clock (one for the fix and one for the sampler of each object), the query, the second
  \<^verbatim>\<open>pool.acquire()\<close>, \<^verbatim>\<open>executemany\<close> and \<^verbatim>\<open>redis_client.set\<close>.
\<close>

record env =
  EarthSatellite :: "caller \<Rightarrow> string \<Rightarrow> string \<Rightarrow> error + satellite"
  position_km :: "satellite \<Rightarrow> instant \<Rightarrow> error + real \<times> real \<times> real"
  subpoint :: "satellite \<Rightarrow> instant \<Rightarrow> error + geographic"
  ts_now :: "row \<Rightarrow> instant"
  datetime_now :: "row \<Rightarrow> instant"
  fetch :: "error + row list"
  acquire :: "error + unit"
  executemany :: "error + unit"
  redis_set :: "error + unit"

text \<open>
  What a cycle can change: the keys of Redis behind \<^verbatim>\<open>redis_client\<close> (\<open>None\<close> when the
  connection failed at start-up and the global is \<^verbatim>\<open>None\<close>), each with its payload and
  its expiry in seconds, and the column \<^verbatim>\<open>geopoint\<close> of the table \<^verbatim>\<open>satellites\<close>, by id,
  as the pair (longitude, latitude) given to \<^verbatim>\<open>ST_MakePoint\<close>. A call that raises leaves
  its store as it was.
\<close>

record world =
  redis_client :: "(string \<rightharpoonup> entry list \<times> nat) option"
  geopoint :: "int \<rightharpoonup> real \<times> real"

section \<open>Constants\<close>

definition PREDICT_SECONDS :: int where
  "PREDICT_SECONDS = 90 * 60"

definition LOOKBACK_SECONDS :: int where
  "LOOKBACK_SECONDS = 5 * 60"

definition SAMPLE_INTERVAL :: int where
  "SAMPLE_INTERVAL = 30"

definition CACHE_KEY :: string where
  "CACHE_KEY = ''satellite_positions_v2''"

definition CACHE_TTL_SECONDS :: nat where
  "CACHE_TTL_SECONDS = 60"

definition timedelta_seconds :: "int \<Rightarrow> int" where
  "timedelta_seconds s = s * 1000000"

section \<open>The sampler\<close>

text \<open>
  The body of the loop \<^verbatim>\<open>for i in range(n)\<close>: the instant of sample \<open>i\<close>, the call of
  Skyfield inside \<^verbatim>\<open>try\<close>, and \<^verbatim>\<open>continue\<close> when it raises.
\<close>

fun sample_loop ::
  "env \<Rightarrow> satellite \<Rightarrow> instant \<Rightarrow> int \<Rightarrow> int list \<Rightarrow> sample list \<Rightarrow> sample list" where
  "sample_loop ev sat start_time sample_interval [] acc = acc"
| "sample_loop ev sat start_time sample_interval (i # rest) acc =
     (let t_dt = start_time + timedelta_seconds (i * sample_interval) in
      case subpoint ev sat t_dt of
        Inl e \<Rightarrow> sample_loop ev sat start_time sample_interval rest acc
      | Inr sub \<Rightarrow>
          sample_loop ev sat start_time sample_interval rest
            (acc @ [\<lparr>t_iso = t_dt, lat = latitude_degrees sub,
                     lon = longitude_degrees sub, alt_km = elevation_km sub\<rparr>]))"

text \<open>
  \<^verbatim>\<open>compute_future_samples\<close>, with the reading of the clock as the argument
  \<open>now_dt_utc\<close>. \<^verbatim>\<open>range(n)\<close> is \<open>[0..n - 1]\<close>, empty when \<open>n \<le> 0\<close>; \<^verbatim>\<open>//\<close> is
  \<open>div\<close> (both round to minus infinity) and raises on a zero divisor; the constructor
  \<^verbatim>\<open>EarthSatellite\<close> is called outside any \<^verbatim>\<open>try\<close>.
\<close>

definition compute_future_samples ::
  "env \<Rightarrow> instant \<Rightarrow> string \<Rightarrow> string \<Rightarrow> int \<Rightarrow> int \<Rightarrow> error + sample list" where
  "compute_future_samples ev now_dt_utc l1 l2 predict_seconds sample_interval =
     (let start_time = now_dt_utc - timedelta_seconds LOOKBACK_SECONDS;
          total_duration = LOOKBACK_SECONDS + predict_seconds
      in if sample_interval = 0 then Inl ZeroDivisionError
         else
           let n = total_duration div sample_interval + 1
           in case EarthSatellite ev In_compute_future_samples l1 l2 of
                Inl e \<Rightarrow> Inl e
              | Inr sat \<Rightarrow>
                  Inr (sample_loop ev sat start_time sample_interval [0..n - 1] []))"

section \<open>The current-position fix\<close>

text \<open>The \<^verbatim>\<open>try\<close> block of \<^verbatim>\<open>calculate_satellite_position\<close>; \<open>t\<close> is \<^verbatim>\<open>ts.now()\<close>.\<close>

definition position_try :: "env \<Rightarrow> instant \<Rightarrow> string \<Rightarrow> string \<Rightarrow> error + pos_data" where
  "position_try ev t l1 l2 =
     (case EarthSatellite ev In_calculate_satellite_position l1 l2 of
        Inl e \<Rightarrow> Inl e
      | Inr sat \<Rightarrow>
          (case position_km ev sat t of
             Inl e \<Rightarrow> Inl e
           | Inr km \<Rightarrow>
               (case subpoint ev sat t of
                  Inl e \<Rightarrow> Inl e
                | Inr sub \<Rightarrow>
                    Inr \<lparr>eci_pos = km,
                         geo_pos = (latitude_degrees sub, longitude_degrees sub,
                                    elevation_km sub)\<rparr>)))"

text \<open>
  \<^verbatim>\<open>calculate_satellite_position\<close>: \<^verbatim>\<open>except Exception\<close> turns every raise of the block
  into the result \<^verbatim>\<open>None\<close>.
\<close>

definition calculate_satellite_position ::
  "env \<Rightarrow> instant \<Rightarrow> string \<Rightarrow> string \<Rightarrow> error + pos_data option" where
  "calculate_satellite_position ev t l1 l2 =
     (case position_try ev t l1 l2 of
        Inl e \<Rightarrow> Inr None
      | Inr d \<Rightarrow> Inr (Some d))"

section \<open>The cycle\<close>

text \<open>
  The loop \<^verbatim>\<open>for sat, task in calculation_tasks\<close> of \<^verbatim>\<open>fetch_and_calculate\<close>, with the two
  lists it appends to. \<^verbatim>\<open>await task\<close> runs \<^verbatim>\<open>calculate_satellite_position\<close> for the row; a
  result that is \<^verbatim>\<open>None\<close> skips the row (\<^verbatim>\<open>continue\<close>); the sampler is called with its
  default arguments inside \<^verbatim>\<open>try\<close>, and \<^verbatim>\<open>samples = []\<close> when it raises.
\<close>

fun fan_out ::
  "env \<Rightarrow> row list \<Rightarrow> entry list \<Rightarrow> (real \<times> real \<times> int) list \<Rightarrow>
     error + entry list \<times> (real \<times> real \<times> int) list" where
  "fan_out ev [] satellites_data postgis_update_args =
     Inr (satellites_data, postgis_update_args)"
| "fan_out ev (sat # rest) satellites_data postgis_update_args =
     (case calculate_satellite_position ev (ts_now ev sat) (line1 sat) (line2 sat) of
        Inl e \<Rightarrow> Inl e
      | Inr None \<Rightarrow> fan_out ev rest satellites_data postgis_update_args
      | Inr (Some pd) \<Rightarrow>
          (case geo_pos pd of
             (la, lo, al) \<Rightarrow>
               (let smp =
                      (case compute_future_samples ev (datetime_now ev sat) (line1 sat)
                              (line2 sat) PREDICT_SECONDS SAMPLE_INTERVAL of
                         Inl e \<Rightarrow> []
                       | Inr s \<Rightarrow> s)
                in fan_out ev rest
                     (satellites_data @
                        [\<lparr>sat_id = satellite_db_id sat, sat_name = name sat,
                          norad_id = norad_cat_id sat, latitude = la, longitude = lo,
                          altitude = al, eci = eci_pos pd, samples = smp\<rparr>])
                     (postgis_update_args @ [(lo, la, satellite_db_id sat)]))))"

text \<open>
  The batch update: \<^verbatim>\<open>pool.acquire()\<close> is outside the inner \<^verbatim>\<open>try\<close>, \<^verbatim>\<open>executemany\<close>
  inside it. Each triple sets the \<^verbatim>\<open>geopoint\<close> of its id.
\<close>

definition set_geopoints ::
  "(real \<times> real \<times> int) list \<Rightarrow> (int \<rightharpoonup> real \<times> real) \<Rightarrow> (int \<rightharpoonup> real \<times> real)" where
  "set_geopoints args g = foldl (\<lambda>m (lo, la, i). m(i \<mapsto> (lo, la))) g args"

definition update_postgis ::
  "env \<Rightarrow> (real \<times> real \<times> int) list \<Rightarrow> world \<Rightarrow> error + world" where
  "update_postgis ev postgis_update_args w =
     (if postgis_update_args \<noteq> [] then
        (case acquire ev of
           Inl e \<Rightarrow> Inl e
         | Inr u \<Rightarrow>
             (case executemany ev of
                Inl e \<Rightarrow> Inr w
              | Inr u' \<Rightarrow>
                  Inr (w\<lparr>geopoint := set_geopoints postgis_update_args (geopoint w)\<rparr>)))
      else Inr w)"

text \<open>
  The cache write, under \<^verbatim>\<open>if redis_client and satellites_data\<close>; the payload
  \<^verbatim>\<open>json.dumps({"satellites": satellites_data})\<close> is kept as the list it encodes.
\<close>

definition cache_results :: "env \<Rightarrow> entry list \<Rightarrow> world \<Rightarrow> error + world" where
  "cache_results ev satellites_data w =
     (case redis_client w of
        None \<Rightarrow> Inr w
      | Some kv \<Rightarrow>
          (if satellites_data \<noteq> [] then
             (case redis_set ev of
                Inl e \<Rightarrow> Inl e
              | Inr u \<Rightarrow>
                  Inr (w\<lparr>redis_client :=
                          Some (kv(CACHE_KEY \<mapsto> (satellites_data, CACHE_TTL_SECONDS)))\<rparr>))
           else Inr w))"

text \<open>
  \<^verbatim>\<open>fetch_and_calculate\<close>: the outer \<^verbatim>\<open>except\<close> ends the cycle at the first raise, with
  the stores as they are then.
\<close>

definition fetch_and_calculate :: "env \<Rightarrow> world \<Rightarrow> world" where
  "fetch_and_calculate ev w =
     (case fetch ev of
        Inl e \<Rightarrow> w
      | Inr satellites \<Rightarrow>
          (case fan_out ev satellites [] [] of
             Inl e \<Rightarrow> w
           | Inr (satellites_data, postgis_update_args) \<Rightarrow>
               (case update_postgis ev postgis_update_args w of
                  Inl e \<Rightarrow> w
                | Inr w1 \<Rightarrow>
                    (case cache_results ev satellites_data w1 of
                       Inl e \<Rightarrow> w1
                     | Inr w2 \<Rightarrow> w2))))"

section \<open>Notions used to state the properties\<close>

text \<open>
  The window of the sampler in the words of the specification: it starts at
  \<open>now - lookback\<close>, holds \<open>floor ((lookback + predict) / interval) + 1\<close> instants, and
  instant \<open>i\<close> is \<open>start + i * interval\<close>. A sample survives when its propagation does
  not raise.
\<close>

definition window_start :: "instant \<Rightarrow> instant" where
  "window_start now_dt_utc = now_dt_utc - timedelta_seconds LOOKBACK_SECONDS"

definition sample_count :: "int \<Rightarrow> int \<Rightarrow> int" where
  "sample_count predict_seconds sample_interval =
     (LOOKBACK_SECONDS + predict_seconds) div sample_interval + 1"

definition grid_instant :: "instant \<Rightarrow> int \<Rightarrow> int \<Rightarrow> instant" where
  "grid_instant start_time sample_interval i =
     start_time + timedelta_seconds (i * sample_interval)"

definition survives :: "env \<Rightarrow> satellite \<Rightarrow> instant \<Rightarrow> int \<Rightarrow> int \<Rightarrow> bool" where
  "survives ev sat start_time sample_interval i =
     (case subpoint ev sat (grid_instant start_time sample_interval i) of
        Inl e \<Rightarrow> False
      | Inr sub \<Rightarrow> True)"

text \<open>The first timestamp of what the sampler returns, if any.\<close>

definition first_timestamp :: "error + sample list \<Rightarrow> instant option" where
  "first_timestamp r =
     (case r of Inl e \<Rightarrow> None | Inr smp \<Rightarrow> (case smp of [] \<Rightarrow> None | s # rest \<Rightarrow> Some (t_iso s)))"

text \<open>
  The snapshot of one object: the entry the loop appends for a row, or none when the
  fix fails; and the triple that goes with an entry.
\<close>

definition samples_or_empty :: "error + sample list \<Rightarrow> sample list" where
  "samples_or_empty r = (case r of Inl e \<Rightarrow> [] | Inr s \<Rightarrow> s)"

definition object_snapshot :: "env \<Rightarrow> row \<Rightarrow> entry option" where
  "object_snapshot ev sat =
     (case position_try ev (ts_now ev sat) (line1 sat) (line2 sat) of
        Inl e \<Rightarrow> None
      | Inr pd \<Rightarrow>
          Some \<lparr>sat_id = satellite_db_id sat, sat_name = name sat,
                norad_id = norad_cat_id sat, latitude = fst (geo_pos pd),
                longitude = fst (snd (geo_pos pd)), altitude = snd (snd (geo_pos pd)),
                eci = eci_pos pd,
                samples =
                  samples_or_empty
                    (compute_future_samples ev (datetime_now ev sat) (line1 sat) (line2 sat)
                       PREDICT_SECONDS SAMPLE_INTERVAL)\<rparr>)"

definition triple_of :: "entry \<Rightarrow> real \<times> real \<times> int" where
  "triple_of e = (longitude e, latitude e, sat_id e)"

text \<open>The snapshots of a list of rows, in the order of the rows.\<close>

fun cycle_snapshot :: "env \<Rightarrow> row list \<Rightarrow> entry list" where
  "cycle_snapshot ev [] = []"
| "cycle_snapshot ev (sat # rest) =
     (case object_snapshot ev sat of
        None \<Rightarrow> cycle_snapshot ev rest
      | Some e \<Rightarrow> e # cycle_snapshot ev rest)"

text \<open>Two environments answer alike whatever the worker asks about one row.\<close>

definition agree_on :: "env \<Rightarrow> env \<Rightarrow> row \<Rightarrow> bool" where
  "agree_on ev ev' r \<longleftrightarrow>
     (\<forall>c. EarthSatellite ev c (line1 r) (line2 r) = EarthSatellite ev' c (line1 r) (line2 r))
     \<and> (\<forall>c sat t. EarthSatellite ev c (line1 r) (line2 r) = Inr sat \<longrightarrow>
           position_km ev sat t = position_km ev' sat t
         \<and> subpoint ev sat t = subpoint ev' sat t)
     \<and> ts_now ev r = ts_now ev' r
     \<and> datetime_now ev r = datetime_now ev' r"

section \<open>Concrete inputs\<close>

text \<open>
  Two rows, one with lines the constructor rejects, and an environment in which every
  other call succeeds; variants of it in which the propagation fails before a given
  instant, or everywhere but at the instant of the fix, or the constructor fails in the
  sampler, or \<^verbatim>\<open>executemany\<close> raises.
\<close>

definition row_a :: row where
  "row_a = \<lparr>satellite_db_id = 1, name = ''ISS'', norad_cat_id = 25544,
            line1 = ''1 25544U'', line2 = ''2 25544''\<rparr>"

definition row_b :: row where
  "row_b = \<lparr>satellite_db_id = 2, name = ''BAD'', norad_cat_id = 99999,
            line1 = ''bad'', line2 = ''bad''\<rparr>"

definition demo_point :: geographic where
  "demo_point = \<lparr>latitude_degrees = 10, longitude_degrees = 20, elevation_km = 400\<rparr>"

definition demo_env :: env where
  "demo_env =
     \<lparr>EarthSatellite =
        (\<lambda>c l1 l2. if l1 = ''bad'' then Inl (Exception ''ValueError'') else Inr (Satellite l1 l2)),
      position_km = (\<lambda>sat t. Inr (7000, 0, 0)),
      subpoint = (\<lambda>sat t. Inr demo_point),
      ts_now = (\<lambda>r. 1000000007),
      datetime_now = (\<lambda>r. 1000000000),
      fetch = Inr [row_a, row_b],
      acquire = Inr (),
      executemany = Inr (),
      redis_set = Inr ()\<rparr>"

definition late_env :: env where
  "late_env =
     demo_env\<lparr>subpoint :=
       (\<lambda>sat t. if t < 1000000000 then Inl (Exception ''early'') else Inr demo_point)\<rparr>"

definition fix_only_env :: env where
  "fix_only_env =
     demo_env\<lparr>subpoint :=
       (\<lambda>sat t. if t = 1000000007 then Inr demo_point else Inl (Exception ''range''))\<rparr>"

definition no_sampler_env :: env where
  "no_sampler_env =
     demo_env\<lparr>EarthSatellite :=
       (\<lambda>c l1 l2. if c = In_compute_future_samples then Inl (Exception ''MemoryError'')
                   else Inr (Satellite l1 l2))\<rparr>"



text \<open>A row like \<open>row_b\<close> with lines the constructor accepts, and a world after a cycle.\<close>

definition row_b_good :: row where
  "row_b_good = \<lparr>satellite_db_id = 2, name = ''BAD'', norad_cat_id = 99999,
                 line1 = ''1 99999U'', line2 = ''2 99999''\<rparr>"

definition stale_world :: world where
  "stale_world =
     \<lparr>redis_client =
        Some [CACHE_KEY \<mapsto>
               ([\<lparr>sat_id = 1, sat_name = ''ISS'', norad_id = 25544, latitude = 10,
                   longitude = 20, altitude = 400, eci = (7000, 0, 0), samples = []\<rparr>],
                CACHE_TTL_SECONDS)],
      geopoint = [1 \<mapsto> (20, 10)]\<rparr>"

section \<open>Properties of the sampler\<close>

lemma sample_loop_stamps:
  "map t_iso (sample_loop ev sat st iv js acc) =
     map t_iso acc @ map (grid_instant st iv) (filter (survives ev sat st iv) js)"
  by (induction js arbitrary: acc)
     (auto simp: survives_def grid_instant_def Let_def split: sum.splits)

lemma sample_loop_length:
  "length (sample_loop ev sat st iv js acc) =
     length acc + length (filter (survives ev sat st iv) js)"
  using arg_cong [OF sample_loop_stamps, of length ev sat st iv js acc] by simp

lemma grid_strict_mono:
  "0 < iv \<Longrightarrow> i < j \<Longrightarrow> grid_instant st iv i < grid_instant st iv j"
  by (simp add: grid_instant_def timedelta_seconds_def)

lemma sorted_grid_filter:
  assumes "0 < iv"
  shows "sorted_wrt (<) (map (grid_instant st iv) (filter P [a..b]))"
proof -
  have "sorted_wrt (<) (filter P [a..b])"
    by (rule sorted_wrt_filter) simp
  then show ?thesis
    unfolding sorted_wrt_map
    by (rule sorted_wrt_mono_rel [rotated]) (simp add: grid_strict_mono assms)
qed

lemma compute_future_samples_Inr:
  assumes "iv \<noteq> 0" and "EarthSatellite ev In_compute_future_samples l1 l2 = Inr sat"
  shows "compute_future_samples ev now l1 l2 ps iv =
           Inr (sample_loop ev sat (window_start now) iv [0..sample_count ps iv - 1] [])"
  using assms by (simp add: compute_future_samples_def sample_count_def window_start_def)

lemma compute_future_samples_cases:
  assumes "compute_future_samples ev now l1 l2 ps iv = Inr smp"
  obtains sat where "iv \<noteq> 0" and "EarthSatellite ev In_compute_future_samples l1 l2 = Inr sat"
    and "smp = sample_loop ev sat (window_start now) iv [0..sample_count ps iv - 1] []"
  using assms
  by (auto simp: compute_future_samples_def sample_count_def window_start_def Let_def
           split: if_splits sum.splits)

lemma default_sample_count: "sample_count PREDICT_SECONDS SAMPLE_INTERVAL = 191"
  by (simp add: sample_count_def PREDICT_SECONDS_def SAMPLE_INTERVAL_def LOOKBACK_SECONDS_def)

lemma strict_sorted_nth_less:
  fixes ys :: "int list"
  assumes "sorted_wrt (<) ys" and "a < length ys" and "b < length ys" and "ys ! a < ys ! b"
  shows "a < b"
proof (rule ccontr)
  assume "\<not> a < b"
  then have "b = a \<or> b < a" by auto
  then show False
  proof
    assume "b = a"
    with assms(4) show False by simp
  next
    assume "b < a"
    with assms(1,2) have "ys ! b < ys ! a"
      by (simp add: sorted_wrt_iff_nth_less)
    with assms(4) show False by simp
  qed
qed

lemma filter_between_dropped:
  fixes xs :: "int list"
  assumes srt: "sorted_wrt (<) xs"
    and k: "Suc k < length (filter P xs)"
    and x: "x \<in> set xs"
    and lo: "filter P xs ! k < x"
    and hi: "x < filter P xs ! Suc k"
  shows "\<not> P x"
proof
  assume "P x"
  let ?ys = "filter P xs"
  have sys: "sorted_wrt (<) ?ys"
    using srt by (rule sorted_wrt_filter)
  from \<open>P x\<close> x have "x \<in> set ?ys" by simp
  then obtain m where m: "m < length ?ys" and xm: "?ys ! m = x"
    unfolding in_set_conv_nth by blast
  have "k < m"
    using sys k m lo xm by (intro strict_sorted_nth_less [of ?ys k m]) auto
  moreover have "m < Suc k"
    using sys k m hi xm by (intro strict_sorted_nth_less [of ?ys m "Suc k"]) auto
  ultimately show False by simp
qed



text \<open>
  Claim C3. For a positive interval and whatever propagations fail, the timestamps of
  the returned samples are strictly increasing and distinct, and two consecutive
  returned samples are the instants \<open>i < j\<close> of the window, \<open>(j - i) * interval\<close>
  apart, every sample strictly between them having been dropped (so exactly one
  interval apart when none was dropped).
\<close>

theorem sample_timestamps_increasing:
  fixes predict_seconds sample_interval :: int and now_dt_utc :: instant
  assumes pos: "0 < sample_interval"
    and run: "compute_future_samples ev now_dt_utc l1 l2 predict_seconds sample_interval = Inr smp"
  defines "st \<equiv> window_start now_dt_utc"
  shows "sorted_wrt (<) (map t_iso smp) \<and> distinct (map t_iso smp)
       \<and> (\<forall>k. Suc k < length smp \<longrightarrow>
             (\<exists>i j. 0 \<le> i \<and> i < j \<and> j < sample_count predict_seconds sample_interval
                \<and> t_iso (smp ! k) = grid_instant st sample_interval i
                \<and> t_iso (smp ! Suc k) = grid_instant st sample_interval j
                \<and> t_iso (smp ! Suc k) - t_iso (smp ! k)
                      = (j - i) * timedelta_seconds sample_interval
                \<and> (\<forall>sat m. EarthSatellite ev In_compute_future_samples l1 l2 = Inr sat \<and> i < m \<and> m < j \<longrightarrow>
                       \<not> survives ev sat st sample_interval m)))"
proof -
  let ?n = "sample_count predict_seconds sample_interval"
  from run obtain sat where sat: "EarthSatellite ev In_compute_future_samples l1 l2 = Inr sat"
    and smp: "smp = sample_loop ev sat st sample_interval [0..?n - 1] []"
    unfolding st_def by (rule compute_future_samples_cases)
  let ?P = "survives ev sat st sample_interval"
  let ?js = "filter ?P [0..?n - 1]"
  have stamps: "map t_iso smp = map (grid_instant st sample_interval) ?js"
    by (simp add: smp sample_loop_stamps)
  have len: "length smp = length ?js"
    using arg_cong [OF stamps, of length] by simp
  have srt: "sorted_wrt (<) (map t_iso smp)"
    unfolding stamps by (rule sorted_grid_filter [OF pos])
  then have dst: "distinct (map t_iso smp)"
    by (simp add: strict_sorted_iff)
  have js_srt: "sorted_wrt (<) ?js"
    by (rule sorted_wrt_filter) simp
  have gaps: "\<exists>i j. 0 \<le> i \<and> i < j \<and> j < ?n
                \<and> t_iso (smp ! k) = grid_instant st sample_interval i
                \<and> t_iso (smp ! Suc k) = grid_instant st sample_interval j
                \<and> t_iso (smp ! Suc k) - t_iso (smp ! k)
                      = (j - i) * timedelta_seconds sample_interval
                \<and> (\<forall>sat m. EarthSatellite ev In_compute_future_samples l1 l2 = Inr sat \<and> i < m \<and> m < j \<longrightarrow>
                       \<not> survives ev sat st sample_interval m)"
    if k: "Suc k < length smp" for k
  proof -
    let ?i = "?js ! k" and ?j = "?js ! Suc k"
    from k len have kj: "Suc k < length ?js" and kk: "k < length ?js"
      by simp_all
    have "?i \<in> set ?js" and "?j \<in> set ?js"
      using kj kk by (simp_all only: nth_mem)
    then have range: "0 \<le> ?i" "?j < ?n"
      by auto
    have lt: "?i < ?j"
      using js_srt kj by (simp add: sorted_wrt_iff_nth_less)
    have ti: "t_iso (smp ! k) = grid_instant st sample_interval ?i"
      using arg_cong [OF stamps, of "\<lambda>xs. xs ! k"] k kk by simp
    have tj: "t_iso (smp ! Suc k) = grid_instant st sample_interval ?j"
      using arg_cong [OF stamps, of "\<lambda>xs. xs ! Suc k"] k kj by simp
    have gap: "t_iso (smp ! Suc k) - t_iso (smp ! k)
                 = (?j - ?i) * timedelta_seconds sample_interval"
      unfolding ti tj by (simp add: grid_instant_def timedelta_seconds_def algebra_simps)
    have dropped: "\<not> survives ev sat' st sample_interval m"
      if "EarthSatellite ev In_compute_future_samples l1 l2 = Inr sat' \<and> ?i < m \<and> m < ?j" for sat' m
    proof -
      from that sat have eq: "sat' = sat" by simp
      from that range have "m \<in> set [0..?n - 1]" by simp
      then show ?thesis
        unfolding eq
        using that by (intro filter_between_dropped [OF _ kj]) simp_all
    qed
    show ?thesis
      using range lt ti tj gap dropped by blast
  qed
  show ?thesis
    using srt dst gaps by blast
qed

theorem sample_timestamps_increasing_witness:
  "0 < SAMPLE_INTERVAL
   \<and> (\<exists>smp. compute_future_samples late_env 1000000000 ''1 25544U'' ''2 25544''
                 PREDICT_SECONDS SAMPLE_INTERVAL = Inr smp
             \<and> sorted_wrt (<) (map t_iso smp) \<and> distinct (map t_iso smp))"
proof -
  have iv: "0 < SAMPLE_INTERVAL"
    by (simp add: SAMPLE_INTERVAL_def)
  have sat: "EarthSatellite late_env In_compute_future_samples ''1 25544U'' ''2 25544''
               = Inr (Satellite ''1 25544U'' ''2 25544'')"
    by (simp add: late_env_def demo_env_def)
  from iv have "SAMPLE_INTERVAL \<noteq> 0" by simp
  from compute_future_samples_Inr [OF this sat]
  obtain smp where run: "compute_future_samples late_env 1000000000 ''1 25544U'' ''2 25544''
                 PREDICT_SECONDS SAMPLE_INTERVAL = Inr smp"
    by blast
  show ?thesis
    using iv run sample_timestamps_increasing [OF iv run] by blast
qed

lemma default_window: "[0..sample_count PREDICT_SECONDS SAMPLE_INTERVAL - 1] = [0..190]"
  by (simp add: default_sample_count)

lemma filter_upto_hd:
  assumes "a \<le> b" and "P a"
  shows "filter P [a..b] \<noteq> [] \<and> hd (filter P [a..b]) = a"
  using assms by (simp add: upto_rec1 [of a b])

lemma strict_sorted_le_last:
  fixes js :: "int list"
  assumes "sorted_wrt (<) js" and "i \<in> set js"
  shows "i \<le> last js"
proof -
  from assms(2) obtain m where m: "m < length js" and im: "js ! m = i"
    unfolding in_set_conv_nth by blast
  then have ne: "js \<noteq> []"
    by auto
  have lst: "last js = js ! (length js - 1)"
    using ne by (rule last_conv_nth)
  show ?thesis
  proof (cases "m = length js - 1")
    case True
    with im lst show ?thesis by simp
  next
    case False
    with m have "m < length js - 1" by simp
    with assms(1) m have "js ! m < js ! (length js - 1)"
      by (simp add: sorted_wrt_iff_nth_less)
    with im lst show ?thesis by simp
  qed
qed

lemma grid_mono:
  "0 < iv \<Longrightarrow> i \<le> j \<Longrightarrow> grid_instant st iv i \<le> grid_instant st iv j"
  by (simp add: grid_instant_def timedelta_seconds_def)

text \<open>
  Claim C1, as amended. With the default constants, when the satellite object can be
  built, the propagation at the first instant of the window succeeds and the
  propagation at some instant of the window at or after \<open>now\<close> succeeds (as when no
  propagation fails), the sampler returns a non-empty list whose first timestamp is
  \<open>now - lookback\<close> and whose last timestamp is at or after \<open>now\<close>; every returned
  timestamp lies between \<open>now - lookback\<close> and \<open>now + predict\<close>. Without the two
  propagations the first or last returned sample can miss: in \<open>late_env\<close> the first
  returned timestamp is \<open>now\<close> itself.
\<close>

theorem window_contains_now:
  assumes sat: "EarthSatellite ev In_compute_future_samples l1 l2 = Inr sat"
    and first: "survives ev sat (window_start now_dt_utc) SAMPLE_INTERVAL 0"
    and later: "0 \<le> i" "i < sample_count PREDICT_SECONDS SAMPLE_INTERVAL"
      "now_dt_utc \<le> grid_instant (window_start now_dt_utc) SAMPLE_INTERVAL i"
      "survives ev sat (window_start now_dt_utc) SAMPLE_INTERVAL i"
  shows "\<exists>smp. compute_future_samples ev now_dt_utc l1 l2 PREDICT_SECONDS SAMPLE_INTERVAL = Inr smp
           \<and> smp \<noteq> []
           \<and> t_iso (hd smp) = now_dt_utc - timedelta_seconds LOOKBACK_SECONDS
           \<and> now_dt_utc \<le> t_iso (last smp)
           \<and> list_all (\<lambda>s. now_dt_utc - timedelta_seconds LOOKBACK_SECONDS \<le> t_iso s
                           \<and> t_iso s \<le> now_dt_utc + timedelta_seconds PREDICT_SECONDS) smp"
proof -
  let ?st = "window_start now_dt_utc"
  let ?P = "survives ev sat ?st SAMPLE_INTERVAL"
  let ?g = "grid_instant ?st SAMPLE_INTERVAL"
  let ?js = "filter ?P [0..190]"
  let ?smp = "sample_loop ev sat ?st SAMPLE_INTERVAL [0..190] []"
  have iv: "0 < SAMPLE_INTERVAL"
    by (simp add: SAMPLE_INTERVAL_def)
  then have iv0: "SAMPLE_INTERVAL \<noteq> 0"
    by simp
  have run: "compute_future_samples ev now_dt_utc l1 l2 PREDICT_SECONDS SAMPLE_INTERVAL = Inr ?smp"
    using compute_future_samples_Inr [OF iv0 sat, of now_dt_utc PREDICT_SECONDS]
    by (simp add: default_window)
  have stamps: "map t_iso ?smp = map ?g ?js"
    by (simp add: sample_loop_stamps)
  have js: "?js \<noteq> []" "hd ?js = 0"
    using filter_upto_hd [of 0 190 ?P] first by simp_all
  then have ne: "?smp \<noteq> []"
    using arg_cong [OF stamps, of length] by auto
  have "t_iso (hd ?smp) = hd (map t_iso ?smp)"
    using ne by (simp add: hd_map)
  also have "\<dots> = ?g 0"
    unfolding stamps using js by (simp add: hd_map)
  also have "\<dots> = now_dt_utc - timedelta_seconds LOOKBACK_SECONDS"
    by (simp add: grid_instant_def window_start_def timedelta_seconds_def)
  finally have h: "t_iso (hd ?smp) = now_dt_utc - timedelta_seconds LOOKBACK_SECONDS" .
  have srt: "sorted_wrt (<) ?js"
    by (rule sorted_wrt_filter) simp
  have "i \<in> set ?js"
    using later by (simp add: default_sample_count)
  then have "i \<le> last ?js"
    by (rule strict_sorted_le_last [OF srt])
  then have "?g i \<le> ?g (last ?js)"
    by (rule grid_mono [OF iv])
  moreover have "t_iso (last ?smp) = ?g (last ?js)"
  proof -
    have "t_iso (last ?smp) = last (map t_iso ?smp)"
      using ne by (simp add: last_map)
    also have "\<dots> = ?g (last ?js)"
      unfolding stamps using js by (simp add: last_map)
    finally show ?thesis .
  qed
  ultimately have l: "now_dt_utc \<le> t_iso (last ?smp)"
    using later(3) by simp
  have inwin: "list_all (\<lambda>s. now_dt_utc - timedelta_seconds LOOKBACK_SECONDS \<le> t_iso s
                           \<and> t_iso s \<le> now_dt_utc + timedelta_seconds PREDICT_SECONDS) ?smp"
  proof -
    have "\<forall>t\<in>set (map t_iso ?smp). now_dt_utc - timedelta_seconds LOOKBACK_SECONDS \<le> t
            \<and> t \<le> now_dt_utc + timedelta_seconds PREDICT_SECONDS"
      unfolding stamps
      by (auto simp: grid_instant_def window_start_def timedelta_seconds_def
            SAMPLE_INTERVAL_def LOOKBACK_SECONDS_def PREDICT_SECONDS_def)
    then show ?thesis
      by (simp add: list_all_iff)
  qed
  show ?thesis
    using run ne h l inwin by blast
qed

lemma first_timestamp_stamps:
  "first_timestamp (Inr smp) = (case map t_iso smp of [] \<Rightarrow> None | t # rest \<Rightarrow> Some t)"
  by (cases smp) (simp_all add: first_timestamp_def)

theorem window_contains_now_counterexample:
  "first_timestamp
     (compute_future_samples late_env 1000000000 ''1 25544U'' ''2 25544''
        PREDICT_SECONDS SAMPLE_INTERVAL) = Some 1000000000
   \<and> (1000000000 :: int) - timedelta_seconds LOOKBACK_SECONDS = 700000000"
proof -
  let ?sat = "Satellite ''1 25544U'' ''2 25544''"
  let ?P = "survives late_env ?sat (window_start 1000000000) SAMPLE_INTERVAL"
  let ?g = "grid_instant (window_start 1000000000) SAMPLE_INTERVAL"
  have iv0: "SAMPLE_INTERVAL \<noteq> 0"
    by (simp add: SAMPLE_INTERVAL_def)
  have sat: "EarthSatellite late_env In_compute_future_samples ''1 25544U'' ''2 25544'' = Inr ?sat"
    by (simp add: late_env_def demo_env_def)
  have run: "compute_future_samples late_env 1000000000 ''1 25544U'' ''2 25544''
               PREDICT_SECONDS SAMPLE_INTERVAL
             = Inr (sample_loop late_env ?sat (window_start 1000000000) SAMPLE_INTERVAL [0..190] [])"
    using compute_future_samples_Inr [OF iv0 sat, of 1000000000 PREDICT_SECONDS]
    by (simp add: default_window)
  have g: "?g i = 700000000 + i * 30000000" for i
    by (simp add: grid_instant_def window_start_def timedelta_seconds_def
          SAMPLE_INTERVAL_def LOOKBACK_SECONDS_def)
  have P: "?P i \<longleftrightarrow> 10 \<le> i" for i
    unfolding survives_def g by (simp add: late_env_def demo_env_def)
  have split: "[0..190] = [0..9] @ 10 # [11..190]"
    using upto_split3 [of 0 10 190] by simp
  have early: "filter ?P [0..9] = []"
    by (simp add: filter_empty_conv P)
  have "filter ?P [0..190] = 10 # filter ?P [11..190]"
    unfolding split by (simp add: early P)
  then have "map t_iso (sample_loop late_env ?sat (window_start 1000000000) SAMPLE_INTERVAL [0..190] [])
               = ?g 10 # map ?g (filter ?P [11..190])"
    by (simp add: sample_loop_stamps)
  then have "first_timestamp
     (compute_future_samples late_env 1000000000 ''1 25544U'' ''2 25544''
        PREDICT_SECONDS SAMPLE_INTERVAL) = Some (?g 10)"
    unfolding run first_timestamp_stamps by simp
  then show ?thesis
    by (simp add: g timedelta_seconds_def LOOKBACK_SECONDS_def)
qed

theorem window_contains_now_witness:
  "EarthSatellite demo_env In_compute_future_samples ''1 25544U'' ''2 25544''
     = Inr (Satellite ''1 25544U'' ''2 25544'')
   \<and> survives demo_env (Satellite ''1 25544U'' ''2 25544'') (window_start 1000000000)
         SAMPLE_INTERVAL 0
   \<and> (10 :: int) < sample_count PREDICT_SECONDS SAMPLE_INTERVAL
   \<and> 1000000000 \<le> grid_instant (window_start 1000000000) SAMPLE_INTERVAL 10
   \<and> survives demo_env (Satellite ''1 25544U'' ''2 25544'') (window_start 1000000000)
         SAMPLE_INTERVAL 10
   \<and> (\<exists>smp. compute_future_samples demo_env 1000000000 ''1 25544U'' ''2 25544''
                 PREDICT_SECONDS SAMPLE_INTERVAL = Inr smp
             \<and> smp \<noteq> []
             \<and> t_iso (hd smp) = 700000000
             \<and> 1000000000 \<le> t_iso (last smp))"
proof -
  let ?sat = "Satellite ''1 25544U'' ''2 25544''"
  have sat: "EarthSatellite demo_env In_compute_future_samples ''1 25544U'' ''2 25544'' = Inr ?sat"
    by (simp add: demo_env_def)
  have s0: "survives demo_env ?sat (window_start 1000000000) SAMPLE_INTERVAL 0"
    by (simp add: survives_def demo_env_def)
  have s10: "survives demo_env ?sat (window_start 1000000000) SAMPLE_INTERVAL 10"
    by (simp add: survives_def demo_env_def)
  have i0: "(0 :: int) \<le> 10"
    by simp
  have i1: "(10 :: int) < sample_count PREDICT_SECONDS SAMPLE_INTERVAL"
    by (simp add: default_sample_count)
  have g: "1000000000 \<le> grid_instant (window_start 1000000000) SAMPLE_INTERVAL 10"
    by (simp add: grid_instant_def window_start_def timedelta_seconds_def
          SAMPLE_INTERVAL_def LOOKBACK_SECONDS_def)
  have start: "(1000000000 :: int) - timedelta_seconds LOOKBACK_SECONDS = 700000000"
    by (simp add: timedelta_seconds_def LOOKBACK_SECONDS_def)
  have "\<exists>smp. compute_future_samples demo_env 1000000000 ''1 25544U'' ''2 25544''
                 PREDICT_SECONDS SAMPLE_INTERVAL = Inr smp
             \<and> smp \<noteq> []
             \<and> t_iso (hd smp) = 700000000
             \<and> 1000000000 \<le> t_iso (last smp)"
    using window_contains_now [OF sat s0 i0 i1 g s10]
    unfolding start by blast
  then show ?thesis
    using sat s0 s10 i1 g by blast
qed

section \<open>Properties of the cycle\<close>

lemma calculate_satellite_position_Inr:
  "calculate_satellite_position ev t l1 l2 =
     Inr (case position_try ev t l1 l2 of Inl e \<Rightarrow> None | Inr d \<Rightarrow> Some d)"
  by (simp add: calculate_satellite_position_def split: sum.splits)

lemma fan_out_step:
  "fan_out ev (sat # rest) sd pg =
     (case object_snapshot ev sat of
        None \<Rightarrow> fan_out ev rest sd pg
      | Some e \<Rightarrow> fan_out ev rest (sd @ [e]) (pg @ [triple_of e]))"
  by (simp add: calculate_satellite_position_Inr object_snapshot_def triple_of_def
        samples_or_empty_def Let_def split: sum.splits prod.splits)

lemma fan_out_eq:
  "fan_out ev rows sd pg =
     Inr (sd @ cycle_snapshot ev rows, pg @ map triple_of (cycle_snapshot ev rows))"
proof (induction rows arbitrary: sd pg)
  case Nil
  show ?case by simp
next
  case (Cons sat rest)
  show ?case
    unfolding fan_out_step by (simp add: Cons.IH split: option.splits)
qed

lemma cycle_snapshot_append:
  "cycle_snapshot ev (xs @ ys) = cycle_snapshot ev xs @ cycle_snapshot ev ys"
  by (induction xs) (simp_all split: option.splits)

lemma object_snapshot_id:
  "object_snapshot ev r = Some e \<Longrightarrow> sat_id e = satellite_db_id r"
  by (auto simp: object_snapshot_def split: sum.splits)

lemma cycle_snapshot_mem:
  "e \<in> set (cycle_snapshot ev rows) \<longleftrightarrow> (\<exists>r\<in>set rows. object_snapshot ev r = Some e)"
  by (induction rows) (auto split: option.splits)

lemma cycle_snapshot_ids:
  "sat_id ` set (cycle_snapshot ev rows) \<subseteq> satellite_db_id ` set rows"
proof
  fix a
  assume "a \<in> sat_id ` set (cycle_snapshot ev rows)"
  then obtain e r where "r \<in> set rows" and "object_snapshot ev r = Some e" and "a = sat_id e"
    by (auto simp: cycle_snapshot_mem)
  then show "a \<in> satellite_db_id ` set rows"
    using object_snapshot_id [of ev r e] by auto
qed

lemma cycle_snapshot_filter:
  "filter (\<lambda>e. sat_id e = a) (cycle_snapshot ev rows)
     = cycle_snapshot ev (filter (\<lambda>r. satellite_db_id r = a) rows)"
  by (induction rows) (auto split: option.splits dest: object_snapshot_id)

lemma cycle_snapshot_cong:
  "(\<And>r. r \<in> set rows \<Longrightarrow> object_snapshot ev r = object_snapshot ev' r) \<Longrightarrow>
     cycle_snapshot ev rows = cycle_snapshot ev' rows"
  by (induction rows) (simp_all split: option.splits)

lemma cycle_snapshot_distinct:
  "distinct (map satellite_db_id rows) \<Longrightarrow> distinct (map sat_id (cycle_snapshot ev rows))"
proof (induction rows)
  case Nil
  show ?case by simp
next
  case (Cons r rows)
  then have d: "distinct (map sat_id (cycle_snapshot ev rows))"
    and n: "satellite_db_id r \<notin> satellite_db_id ` set rows"
    by simp_all
  show ?case
  proof (cases "object_snapshot ev r")
    case None
    with d show ?thesis by simp
  next
    case (Some e)
    then have "sat_id e = satellite_db_id r"
      by (rule object_snapshot_id)
    with n cycle_snapshot_ids [of ev rows] have "sat_id e \<notin> sat_id ` set (cycle_snapshot ev rows)"
      by auto
    with d Some show ?thesis by simp
  qed
qed

lemma object_snapshot_None:
  "calculate_satellite_position ev (ts_now ev r) (line1 r) (line2 r) = Inr None \<Longrightarrow>
     object_snapshot ev r = None"
  by (simp add: calculate_satellite_position_def object_snapshot_def split: sum.splits)

lemma object_snapshot_Some:
  "calculate_satellite_position ev (ts_now ev r) (line1 r) (line2 r) = Inr (Some pd) \<Longrightarrow>
     object_snapshot ev r =
       Some \<lparr>sat_id = satellite_db_id r, sat_name = name r, norad_id = norad_cat_id r,
             latitude = fst (geo_pos pd), longitude = fst (snd (geo_pos pd)),
             altitude = snd (snd (geo_pos pd)), eci = eci_pos pd,
             samples =
               samples_or_empty
                 (compute_future_samples ev (datetime_now ev r) (line1 r) (line2 r)
                    PREDICT_SECONDS SAMPLE_INTERVAL)\<rparr>"
  by (simp add: calculate_satellite_position_def object_snapshot_def split: sum.splits)

lemma demo_fix_a:
  "calculate_satellite_position demo_env (ts_now demo_env row_a) (line1 row_a) (line2 row_a)
     = Inr (Some \<lparr>eci_pos = (7000, 0, 0), geo_pos = (10, 20, 400)\<rparr>)"
  by (simp add: calculate_satellite_position_def position_try_def demo_env_def row_a_def
        demo_point_def)

lemma demo_fix_b:
  "calculate_satellite_position demo_env (ts_now demo_env row_b) (line1 row_b) (line2 row_b)
     = Inr None"
  by (simp add: calculate_satellite_position_def position_try_def demo_env_def row_b_def)

lemma demo_snapshot_length: "length (cycle_snapshot demo_env [row_a, row_b]) = 1"
  by (simp add: object_snapshot_Some [OF demo_fix_a] object_snapshot_None [OF demo_fix_b])

text \<open>
  Claim C4. When the fix of a row fails, the loop returns what it returns without that
  row, and no entry and no triple carries the row's id (unless another row has the
  same id).
\<close>

theorem failed_fix_excluded:
  assumes failed: "calculate_satellite_position ev (ts_now ev r) (line1 r) (line2 r) = Inr None"
  shows "fan_out ev (xs @ r # ys) [] [] = fan_out ev (xs @ ys) [] []
       \<and> (\<exists>sd pg. fan_out ev (xs @ r # ys) [] [] = Inr (sd, pg)
             \<and> (satellite_db_id r \<notin> satellite_db_id ` set (xs @ ys) \<longrightarrow>
                   satellite_db_id r \<notin> sat_id ` set sd
                 \<and> satellite_db_id r \<notin> (snd \<circ> snd) ` set pg))"
proof -
  let ?sd = "cycle_snapshot ev (xs @ ys)"
  from failed have none: "object_snapshot ev r = None"
    by (rule object_snapshot_None)
  then have drop: "cycle_snapshot ev (xs @ r # ys) = ?sd"
    by (simp add: cycle_snapshot_append)
  have same: "fan_out ev (xs @ r # ys) [] [] = fan_out ev (xs @ ys) [] []"
    by (simp only: fan_out_eq drop)
  have run: "fan_out ev (xs @ r # ys) [] [] = Inr (?sd, map triple_of ?sd)"
    by (simp add: fan_out_eq drop)
  have ids: "(snd \<circ> snd) ` set (map triple_of ?sd) = sat_id ` set ?sd"
    by (auto simp: triple_of_def image_iff)
  have absent: "satellite_db_id r \<notin> sat_id ` set ?sd
                 \<and> satellite_db_id r \<notin> (snd \<circ> snd) ` set (map triple_of ?sd)"
    if "satellite_db_id r \<notin> satellite_db_id ` set (xs @ ys)"
    unfolding ids using that cycle_snapshot_ids [of ev "xs @ ys"] by blast
  show ?thesis
    using same run absent by blast
qed

theorem failed_fix_excluded_witness:
  "calculate_satellite_position demo_env (ts_now demo_env row_b) (line1 row_b) (line2 row_b)
     = Inr None
   \<and> satellite_db_id row_b \<notin> satellite_db_id ` set ([row_a] @ [])
   \<and> fan_out demo_env ([row_a] @ row_b # []) [] [] = fan_out demo_env ([row_a] @ []) [] []"
proof -
  have failed: "calculate_satellite_position demo_env (ts_now demo_env row_b) (line1 row_b)
               (line2 row_b) = Inr None"
    by (simp add: calculate_satellite_position_def position_try_def demo_env_def row_b_def)
  have ids: "satellite_db_id row_b \<notin> satellite_db_id ` set ([row_a] @ [])"
    by (simp add: row_a_def row_b_def)
  show ?thesis
    using failed ids failed_fix_excluded [OF failed, of "[row_a]" "[]"] by blast
qed

lemma triple_of_id: "snd (snd (triple_of e)) = sat_id e"
  by (simp add: triple_of_def)

lemma one_triple_per_entry:
  assumes inj: "inj_on sat_id (set sd)" and e: "e \<in> set sd"
  shows "\<exists>!tr. tr \<in> set (map triple_of sd) \<and> snd (snd tr) = sat_id e"
proof (rule ex1I [of _ "triple_of e"])
  show "triple_of e \<in> set (map triple_of sd) \<and> snd (snd (triple_of e)) = sat_id e"
    using e by (simp add: triple_of_id)
next
  fix tr
  assume tr: "tr \<in> set (map triple_of sd) \<and> snd (snd tr) = sat_id e"
  then have "tr \<in> triple_of ` set sd"
    by simp
  then obtain e' where e': "e' \<in> set sd" and eq: "tr = triple_of e'"
    by (rule imageE)
  from tr eq have "sat_id e' = sat_id e"
    by (simp add: triple_of_id)
  with inj e' e have "e' = e"
    by (simp add: inj_on_def)
  with eq show "tr = triple_of e"
    by simp
qed

lemma one_entry_per_triple:
  assumes inj: "inj_on sat_id (set sd)" and tr: "tr \<in> set (map triple_of sd)"
  shows "\<exists>!e. e \<in> set sd \<and> tr = triple_of e"
proof -
  from tr have "tr \<in> triple_of ` set sd"
    by simp
  then obtain e where e: "e \<in> set sd" and eq: "tr = triple_of e"
    by (rule imageE)
  show ?thesis
  proof (rule ex1I [of _ e])
    show "e \<in> set sd \<and> tr = triple_of e"
      using e eq by simp
  next
    fix e'
    assume a: "e' \<in> set sd \<and> tr = triple_of e'"
    then have "snd (snd (triple_of e')) = snd (snd (triple_of e))"
      using eq by simp
    then have "sat_id e' = sat_id e"
      by (simp only: triple_of_id)
    with inj a e show "e' = e"
      by (simp add: inj_on_def)
  qed
qed

text \<open>
  Claim C10. The batch for PostGIS is the list of the triples (longitude, latitude, id)
  of the entries of \<open>satellites_data\<close>, in the same order; so when the rows have
  distinct ids, each entry has exactly one triple with its id, which carries its
  coordinates, and each triple exactly one entry.
\<close>

theorem sinks_agree:
  assumes run: "fan_out ev rows [] [] = Inr (sd, pg)"
  shows "pg = map triple_of sd
       \<and> (distinct (map satellite_db_id rows) \<longrightarrow>
            distinct (map sat_id sd)
          \<and> (\<forall>e\<in>set sd. triple_of e \<in> set pg
                \<and> (\<exists>!tr. tr \<in> set pg \<and> snd (snd tr) = sat_id e))
          \<and> (\<forall>tr\<in>set pg. \<exists>!e. e \<in> set sd \<and> tr = triple_of e))"
proof -
  from run have eq: "cycle_snapshot ev rows = sd \<and> map triple_of (cycle_snapshot ev rows) = pg"
    unfolding fan_out_eq append_Nil sum.inject prod.inject .
  then have sd: "sd = cycle_snapshot ev rows"
    by (rule conjunct1 [THEN sym])
  from eq have pg: "pg = map triple_of sd"
    unfolding sd by (rule conjunct2 [THEN sym])
  have rest: "distinct (map sat_id sd)
          \<and> (\<forall>e\<in>set sd. triple_of e \<in> set pg
                \<and> (\<exists>!tr. tr \<in> set pg \<and> snd (snd tr) = sat_id e))
          \<and> (\<forall>tr\<in>set pg. \<exists>!e. e \<in> set sd \<and> tr = triple_of e)"
    if d: "distinct (map satellite_db_id rows)"
  proof (intro conjI ballI)
    show ds: "distinct (map sat_id sd)"
      unfolding sd using d by (rule cycle_snapshot_distinct)
    then have inj: "inj_on sat_id (set sd)"
      by (simp only: distinct_map)
    show "triple_of e \<in> set pg" if "e \<in> set sd" for e
      unfolding pg using that by simp
    show "\<exists>!tr. tr \<in> set pg \<and> snd (snd tr) = sat_id e" if "e \<in> set sd" for e
      unfolding pg using inj that by (rule one_triple_per_entry)
    show "\<exists>!e. e \<in> set sd \<and> tr = triple_of e" if "tr \<in> set pg" for tr
      using inj that unfolding pg by (rule one_entry_per_triple)
  qed
  show ?thesis
  proof (rule conjI)
    show "pg = map triple_of sd"
      by (rule pg)
    show "distinct (map satellite_db_id rows) \<longrightarrow>
            distinct (map sat_id sd)
          \<and> (\<forall>e\<in>set sd. triple_of e \<in> set pg
                \<and> (\<exists>!tr. tr \<in> set pg \<and> snd (snd tr) = sat_id e))
          \<and> (\<forall>tr\<in>set pg. \<exists>!e. e \<in> set sd \<and> tr = triple_of e)"
      by (rule impI, rule rest, assumption)
  qed
qed

theorem sinks_agree_witness:
  "fan_out demo_env [row_a, row_b] [] []
     = Inr (cycle_snapshot demo_env [row_a, row_b],
            map triple_of (cycle_snapshot demo_env [row_a, row_b]))
   \<and> distinct (map satellite_db_id [row_a, row_b])
   \<and> length (cycle_snapshot demo_env [row_a, row_b]) = 1
   \<and> distinct (map sat_id (cycle_snapshot demo_env [row_a, row_b]))
   \<and> list_all (\<lambda>e. triple_of e \<in> set (map triple_of (cycle_snapshot demo_env [row_a, row_b])))
        (cycle_snapshot demo_env [row_a, row_b])"
proof -
  let ?sd = "cycle_snapshot demo_env [row_a, row_b]"
  have run: "fan_out demo_env [row_a, row_b] [] [] = Inr (?sd, map triple_of ?sd)"
    by (simp only: fan_out_eq append_Nil)
  have d: "distinct (map satellite_db_id [row_a, row_b])"
    by (simp add: row_a_def row_b_def)
  from sinks_agree [OF run] d
  have "distinct (map sat_id ?sd)"
    and "\<forall>e\<in>set ?sd. triple_of e \<in> set (map triple_of ?sd)
           \<and> (\<exists>!tr. tr \<in> set (map triple_of ?sd) \<and> snd (snd tr) = sat_id e)"
    by blast+
  then show ?thesis
    using run d demo_snapshot_length by (simp add: list_all_iff)
qed

lemma sample_loop_none:
  assumes "\<forall>i\<in>set js. \<not> survives ev sat st iv i"
  shows "sample_loop ev sat st iv js [] = []"
proof -
  from assms have "filter (survives ev sat st iv) js = []"
    by (simp add: filter_empty_conv)
  then have "length (sample_loop ev sat st iv js []) = 0"
    by (simp add: sample_loop_length)
  then show ?thesis
    by simp
qed

text \<open>
  Claim C9. When the fix of a row succeeds and the sampler raises or returns no sample,
  the loop still appends the entry of the row, with the fields of the row and of the
  fix and \<open>samples = []\<close>, and its triple.
\<close>

theorem empty_samples_kept:
  assumes row: "r \<in> set rows"
    and fixed: "calculate_satellite_position ev (ts_now ev r) (line1 r) (line2 r) = Inr (Some pd)"
    and none: "compute_future_samples ev (datetime_now ev r) (line1 r) (line2 r)
                 PREDICT_SECONDS SAMPLE_INTERVAL = Inl e
             \<or> compute_future_samples ev (datetime_now ev r) (line1 r) (line2 r)
                 PREDICT_SECONDS SAMPLE_INTERVAL = Inr []"
  shows "\<exists>sd pg. fan_out ev rows [] [] = Inr (sd, pg)
           \<and> \<lparr>sat_id = satellite_db_id r, sat_name = name r, norad_id = norad_cat_id r,
                latitude = fst (geo_pos pd), longitude = fst (snd (geo_pos pd)),
                altitude = snd (snd (geo_pos pd)), eci = eci_pos pd, samples = []\<rparr> \<in> set sd
           \<and> (fst (snd (geo_pos pd)), fst (geo_pos pd), satellite_db_id r) \<in> set pg"
proof -
  let ?e = "\<lparr>sat_id = satellite_db_id r, sat_name = name r, norad_id = norad_cat_id r,
                latitude = fst (geo_pos pd), longitude = fst (snd (geo_pos pd)),
                altitude = snd (snd (geo_pos pd)), eci = eci_pos pd, samples = []\<rparr>"
  let ?sd = "cycle_snapshot ev rows"
  from none have "samples_or_empty (compute_future_samples ev (datetime_now ev r) (line1 r)
                    (line2 r) PREDICT_SECONDS SAMPLE_INTERVAL) = []"
    by (rule disjE) (simp_all add: samples_or_empty_def)
  then have snap: "object_snapshot ev r = Some ?e"
    by (simp add: object_snapshot_Some [OF fixed])
  with row have mem: "?e \<in> set ?sd"
    unfolding cycle_snapshot_mem by (rule bexI [rotated])
  then have "triple_of ?e \<in> set (map triple_of ?sd)"
    by simp
  then have tr: "(fst (snd (geo_pos pd)), fst (geo_pos pd), satellite_db_id r)
                   \<in> set (map triple_of ?sd)"
    by (simp add: triple_of_def)
  have run: "fan_out ev rows [] [] = Inr (?sd, map triple_of ?sd)"
    by (simp only: fan_out_eq append_Nil)
  show ?thesis
    using run mem tr by (intro exI conjI)
qed

theorem empty_samples_kept_witness:
  "row_a \<in> set [row_a, row_b]
   \<and> calculate_satellite_position no_sampler_env (ts_now no_sampler_env row_a) (line1 row_a)
       (line2 row_a) = Inr (Some \<lparr>eci_pos = (7000, 0, 0), geo_pos = (10, 20, 400)\<rparr>)
   \<and> compute_future_samples no_sampler_env (datetime_now no_sampler_env row_a) (line1 row_a)
       (line2 row_a) PREDICT_SECONDS SAMPLE_INTERVAL = Inl (Exception ''MemoryError'')
   \<and> (\<exists>sd pg. fan_out no_sampler_env [row_a, row_b] [] [] = Inr (sd, pg)
          \<and> \<lparr>sat_id = 1, sat_name = ''ISS'', norad_id = 25544, latitude = 10, longitude = 20,
               altitude = 400, eci = (7000, 0, 0), samples = []\<rparr> \<in> set sd
          \<and> (20, 10, 1) \<in> set pg)
   \<and> calculate_satellite_position fix_only_env (ts_now fix_only_env row_a) (line1 row_a)
       (line2 row_a) = Inr (Some \<lparr>eci_pos = (7000, 0, 0), geo_pos = (10, 20, 400)\<rparr>)
   \<and> compute_future_samples fix_only_env (datetime_now fix_only_env row_a) (line1 row_a)
       (line2 row_a) PREDICT_SECONDS SAMPLE_INTERVAL = Inr []
   \<and> (\<exists>sd pg. fan_out fix_only_env [row_a, row_b] [] [] = Inr (sd, pg)
          \<and> \<lparr>sat_id = 1, sat_name = ''ISS'', norad_id = 25544, latitude = 10, longitude = 20,
               altitude = 400, eci = (7000, 0, 0), samples = []\<rparr> \<in> set sd
          \<and> (20, 10, 1) \<in> set pg)"
proof -
  let ?pd = "\<lparr>eci_pos = (7000, 0, 0), geo_pos = (10, 20, 400)\<rparr> :: pos_data"
  have row: "row_a \<in> set [row_a, row_b]"
    by simp
  have f1: "calculate_satellite_position no_sampler_env (ts_now no_sampler_env row_a)
              (line1 row_a) (line2 row_a) = Inr (Some ?pd)"
    by (simp add: calculate_satellite_position_def position_try_def no_sampler_env_def
          demo_env_def row_a_def demo_point_def)
  have s1: "compute_future_samples no_sampler_env (datetime_now no_sampler_env row_a)
              (line1 row_a) (line2 row_a) PREDICT_SECONDS SAMPLE_INTERVAL
            = Inl (Exception ''MemoryError'')"
    by (simp add: compute_future_samples_def no_sampler_env_def demo_env_def
          SAMPLE_INTERVAL_def)
  have f2: "calculate_satellite_position fix_only_env (ts_now fix_only_env row_a)
              (line1 row_a) (line2 row_a) = Inr (Some ?pd)"
    by (simp add: calculate_satellite_position_def position_try_def fix_only_env_def
          demo_env_def row_a_def demo_point_def)
  have sat2: "EarthSatellite fix_only_env In_compute_future_samples (line1 row_a) (line2 row_a)
                = Inr (Satellite (line1 row_a) (line2 row_a))"
    by (simp add: fix_only_env_def demo_env_def row_a_def)
  have iv0: "SAMPLE_INTERVAL \<noteq> 0"
    by (simp add: SAMPLE_INTERVAL_def)
  have dead: "\<not> survives fix_only_env sat (window_start (datetime_now fix_only_env row_a))
                 SAMPLE_INTERVAL i" for sat i
  proof -
    have "grid_instant (window_start (datetime_now fix_only_env row_a)) SAMPLE_INTERVAL i
            = 700000000 + i * 30000000"
      by (simp add: grid_instant_def window_start_def timedelta_seconds_def
            SAMPLE_INTERVAL_def LOOKBACK_SECONDS_def fix_only_env_def demo_env_def)
    moreover have "700000000 + i * 30000000 \<noteq> (1000000007 :: int)"
    proof
      assume eq: "700000000 + i * 30000000 = (1000000007 :: int)"
      have "(10 :: int) dvd 700000000 + i * 30000000"
        by (intro dvd_add dvd_mult) simp_all
      then have "(10 :: int) dvd 1000000007"
        by (simp only: eq)
      then show False
        by simp
    qed
    ultimately show ?thesis
      by (simp add: survives_def fix_only_env_def demo_env_def)
  qed
  have "sample_loop fix_only_env (Satellite (line1 row_a) (line2 row_a))
          (window_start (datetime_now fix_only_env row_a)) SAMPLE_INTERVAL
          [0..sample_count PREDICT_SECONDS SAMPLE_INTERVAL - 1] [] = []"
    by (rule sample_loop_none) (simp add: dead)
  then have s2: "compute_future_samples fix_only_env (datetime_now fix_only_env row_a)
              (line1 row_a) (line2 row_a) PREDICT_SECONDS SAMPLE_INTERVAL = Inr []"
    by (simp only: compute_future_samples_Inr [OF iv0 sat2])
  have flds: "satellite_db_id row_a = 1" "name row_a = ''ISS''" "norad_cat_id row_a = 25544"
    by (simp_all add: row_a_def)
  have geo: "fst (geo_pos ?pd) = 10" "fst (snd (geo_pos ?pd)) = 20"
    "snd (snd (geo_pos ?pd)) = 400" "eci_pos ?pd = (7000, 0, 0)"
    by simp_all
  note e1 = empty_samples_kept [OF row f1 disjI1, OF s1, unfolded flds geo]
  note e2 = empty_samples_kept [OF row f2 disjI2, OF s2, unfolded flds geo]
  show ?thesis
    using row f1 s1 e1 f2 s2 e2 by (intro conjI)
qed

lemma cycle_snapshot_empty:
  assumes "\<forall>r\<in>set rows. calculate_satellite_position ev (ts_now ev r) (line1 r) (line2 r) = Inr None"
  shows "cycle_snapshot ev rows = []"
  using assms by (induction rows) (simp_all add: object_snapshot_None)

lemma update_postgis_Nil: "update_postgis ev [] w = Inr w"
  by (simp add: update_postgis_def)

lemma cache_results_Nil: "cache_results ev [] w = Inr w"
  by (simp add: cache_results_def split: option.splits)

lemma fetch_and_calculate_run:
  assumes "fetch ev = Inr rows" and "fan_out ev rows [] [] = Inr (sd, pg)"
  shows "fetch_and_calculate ev w =
           (case update_postgis ev pg w of
              Inl e \<Rightarrow> w
            | Inr w1 \<Rightarrow> (case cache_results ev sd w1 of Inl e \<Rightarrow> w1 | Inr w2 \<Rightarrow> w2))"
  using assms by (simp add: fetch_and_calculate_def)

text \<open>
  Claim C6. When the query succeeds and the fix of every row it returns fails (as when
  it returns no row), the loop produces no entry and no triple, and the cycle leaves
  the stores as they were: the payload under every key of Redis is the one before the
  cycle.
\<close>

theorem empty_cycle_keeps_cache:
  assumes fetched: "fetch ev = Inr rows"
    and none: "\<forall>r\<in>set rows.
                 calculate_satellite_position ev (ts_now ev r) (line1 r) (line2 r) = Inr None"
  shows "fan_out ev rows [] [] = Inr ([], [])
       \<and> fetch_and_calculate ev w = w
       \<and> redis_client (fetch_and_calculate ev w) = redis_client w"
proof -
  from none have "cycle_snapshot ev rows = []"
    by (rule cycle_snapshot_empty)
  then have run: "fan_out ev rows [] [] = Inr ([], [])"
    by (simp add: fan_out_eq)
  have same: "fetch_and_calculate ev w = w"
    unfolding fetch_and_calculate_run [OF fetched run]
    by (simp add: update_postgis_Nil cache_results_Nil)
  show ?thesis
    using run same by simp
qed

theorem empty_cycle_keeps_cache_witness:
  "fetch (demo_env\<lparr>fetch := Inr [row_b]\<rparr>) = Inr [row_b]
   \<and> list_all
        (\<lambda>r. calculate_satellite_position (demo_env\<lparr>fetch := Inr [row_b]\<rparr>)
               (ts_now (demo_env\<lparr>fetch := Inr [row_b]\<rparr>) r) (line1 r) (line2 r) = Inr None)
        [row_b]
   \<and> fetch_and_calculate (demo_env\<lparr>fetch := Inr [row_b]\<rparr>) stale_world = stale_world"
proof -
  let ?ev = "demo_env\<lparr>fetch := Inr [row_b]\<rparr>"
  have fetched: "fetch ?ev = Inr [row_b]"
    by simp
  have failed: "calculate_satellite_position ?ev (ts_now ?ev row_b) (line1 row_b) (line2 row_b)
                  = Inr None"
    by (simp add: calculate_satellite_position_def position_try_def demo_env_def row_b_def)
  then have none: "\<forall>r\<in>set [row_b].
                 calculate_satellite_position ?ev (ts_now ?ev r) (line1 r) (line2 r) = Inr None"
    by simp
  from empty_cycle_keeps_cache [OF fetched none, of stale_world]
  have "fetch_and_calculate ?ev stale_world = stale_world"
    by (rule conjunct2 [THEN conjunct1])
  with fetched failed show ?thesis
    by simp
qed

lemma sample_loop_cong:
  assumes "\<And>t. subpoint ev sat t = subpoint ev' sat t"
  shows "sample_loop ev sat st iv js acc = sample_loop ev' sat st iv js acc"
  using assms by (induction js arbitrary: acc) (simp_all add: Let_def cong: sum.case_cong)

lemma position_try_cong:
  assumes "EarthSatellite ev In_calculate_satellite_position l1 l2
             = EarthSatellite ev' In_calculate_satellite_position l1 l2"
    and "\<And>sat t. EarthSatellite ev In_calculate_satellite_position l1 l2 = Inr sat \<Longrightarrow>
           position_km ev sat t = position_km ev' sat t \<and> subpoint ev sat t = subpoint ev' sat t"
  shows "position_try ev t l1 l2 = position_try ev' t l1 l2"
proof (cases "EarthSatellite ev In_calculate_satellite_position l1 l2")
  case (Inl e)
  then have "EarthSatellite ev' In_calculate_satellite_position l1 l2 = Inl e"
    by (simp only: assms(1) [symmetric])
  with Inl show ?thesis
    by (simp only: position_try_def sum.case)
next
  case (Inr sat)
  then have other: "EarthSatellite ev' In_calculate_satellite_position l1 l2 = Inr sat"
    by (simp only: assms(1) [symmetric])
  from assms(2) [OF Inr] have k: "position_km ev sat t = position_km ev' sat t"
    and s: "subpoint ev sat t = subpoint ev' sat t"
    by simp_all
  show ?thesis
    by (simp only: position_try_def Inr other sum.case k s)
qed

lemma compute_future_samples_cong:
  assumes "EarthSatellite ev In_compute_future_samples l1 l2
             = EarthSatellite ev' In_compute_future_samples l1 l2"
    and "\<And>sat t. EarthSatellite ev In_compute_future_samples l1 l2 = Inr sat \<Longrightarrow>
           subpoint ev sat t = subpoint ev' sat t"
  shows "compute_future_samples ev now l1 l2 ps iv = compute_future_samples ev' now l1 l2 ps iv"
proof (cases "EarthSatellite ev In_compute_future_samples l1 l2")
  case (Inl e)
  then have "EarthSatellite ev' In_compute_future_samples l1 l2 = Inl e"
    by (simp only: assms(1) [symmetric])
  with Inl show ?thesis
    by (simp only: compute_future_samples_def sum.case)
next
  case (Inr sat)
  then have other: "EarthSatellite ev' In_compute_future_samples l1 l2 = Inr sat"
    by (simp only: assms(1) [symmetric])
  have l: "sample_loop ev sat st iv js [] = sample_loop ev' sat st iv js []" for st js
    by (rule sample_loop_cong) (rule assms(2) [OF Inr])
  show ?thesis
    by (simp only: compute_future_samples_def Inr other sum.case l)
qed

lemma object_snapshot_cong:
  assumes "agree_on ev ev' r"
  shows "object_snapshot ev r = object_snapshot ev' r"
proof -
  from assms have
    c: "\<And>c. EarthSatellite ev c (line1 r) (line2 r) = EarthSatellite ev' c (line1 r) (line2 r)"
    and o: "\<And>c sat t. EarthSatellite ev c (line1 r) (line2 r) = Inr sat \<Longrightarrow>
              position_km ev sat t = position_km ev' sat t
            \<and> subpoint ev sat t = subpoint ev' sat t"
    and t1: "ts_now ev r = ts_now ev' r"
    and t2: "datetime_now ev r = datetime_now ev' r"
    unfolding agree_on_def by blast+
  have p: "position_try ev t (line1 r) (line2 r) = position_try ev' t (line1 r) (line2 r)" for t
    by (rule position_try_cong) (rule c, rule o)
  have s: "compute_future_samples ev now (line1 r) (line2 r) ps iv
             = compute_future_samples ev' now (line1 r) (line2 r) ps iv" for now ps iv
  proof (rule compute_future_samples_cong)
    show "EarthSatellite ev In_compute_future_samples (line1 r) (line2 r)
            = EarthSatellite ev' In_compute_future_samples (line1 r) (line2 r)"
      by (rule c)
    show "subpoint ev sat t = subpoint ev' sat t"
      if "EarthSatellite ev In_compute_future_samples (line1 r) (line2 r) = Inr sat" for sat t
      using o [OF that] by (rule conjunct2)
  qed
  show ?thesis
    unfolding object_snapshot_def p s t1 t2 ..
qed





text \<open>
  Claim C5. The loop always returns its two lists: no raise of a fix or of a sampler
  leaves it. What it returns for the object with id \<open>a\<close> depends on the rows with that
  id and on what the environment answers about them only: two cycles that agree there,
  whatever the other rows are and whatever happens to them, return the same entries and
  triples with id \<open>a\<close>, and an object of id \<open>a\<close> whose fix succeeds has its entry in
  both.
\<close>

theorem failure_isolation:
  assumes same: "filter (\<lambda>r. satellite_db_id r = a) rows'
                   = filter (\<lambda>r. satellite_db_id r = a) rows"
    and agree: "\<forall>r\<in>set rows. satellite_db_id r = a \<longrightarrow> agree_on ev ev' r"
  shows "\<exists>sd pg sd' pg'.
           fan_out ev rows [] [] = Inr (sd, pg)
         \<and> fan_out ev' rows' [] [] = Inr (sd', pg')
         \<and> filter (\<lambda>en. sat_id en = a) sd' = filter (\<lambda>en. sat_id en = a) sd
         \<and> filter (\<lambda>tr. snd (snd tr) = a) pg' = filter (\<lambda>tr. snd (snd tr) = a) pg
         \<and> (\<forall>r pd. r \<in> set rows \<and> satellite_db_id r = a
                \<and> calculate_satellite_position ev (ts_now ev r) (line1 r) (line2 r)
                    = Inr (Some pd) \<longrightarrow>
                (\<exists>en. en \<in> set sd \<and> en \<in> set sd' \<and> sat_id en = a
                   \<and> sat_name en = name r \<and> norad_id en = norad_cat_id r
                   \<and> latitude en = fst (geo_pos pd)
                   \<and> longitude en = fst (snd (geo_pos pd))
                   \<and> altitude en = snd (snd (geo_pos pd))
                   \<and> eci en = eci_pos pd))"
proof -
  let ?sd = "cycle_snapshot ev rows" and ?sd' = "cycle_snapshot ev' rows'"
  let ?mine = "\<lambda>r. satellite_db_id r = a"
  have run: "fan_out ev rows [] [] = Inr (?sd, map triple_of ?sd)"
    by (simp only: fan_out_eq append_Nil)
  have run': "fan_out ev' rows' [] [] = Inr (?sd', map triple_of ?sd')"
    by (simp only: fan_out_eq append_Nil)
  have "cycle_snapshot ev' (filter ?mine rows) = cycle_snapshot ev (filter ?mine rows)"
  proof (rule cycle_snapshot_cong)
    fix r
    assume "r \<in> set (filter ?mine rows)"
    with agree have "agree_on ev ev' r"
      by simp
    then show "object_snapshot ev' r = object_snapshot ev r"
      by (rule object_snapshot_cong [symmetric])
  qed
  then have ents: "filter (\<lambda>en. sat_id en = a) ?sd' = filter (\<lambda>en. sat_id en = a) ?sd"
    by (simp only: cycle_snapshot_filter same)
  have tr: "filter (\<lambda>tr. snd (snd tr) = a) (map triple_of xs)
              = map triple_of (filter (\<lambda>en. sat_id en = a) xs)" for xs
    by (simp add: filter_map comp_def triple_of_id)
  have trs: "filter (\<lambda>tr. snd (snd tr) = a) (map triple_of ?sd')
               = filter (\<lambda>tr. snd (snd tr) = a) (map triple_of ?sd)"
    by (simp only: tr ents)
  have present: "\<exists>en. en \<in> set ?sd \<and> en \<in> set ?sd' \<and> sat_id en = a
                   \<and> sat_name en = name r \<and> norad_id en = norad_cat_id r
                   \<and> latitude en = fst (geo_pos pd)
                   \<and> longitude en = fst (snd (geo_pos pd))
                   \<and> altitude en = snd (snd (geo_pos pd))
                   \<and> eci en = eci_pos pd"
    if r: "r \<in> set rows \<and> satellite_db_id r = a
             \<and> calculate_satellite_position ev (ts_now ev r) (line1 r) (line2 r) = Inr (Some pd)"
    for r pd
  proof -
    from r have fixed: "calculate_satellite_position ev (ts_now ev r) (line1 r) (line2 r)
                          = Inr (Some pd)"
      by simp
    obtain en where snap: "object_snapshot ev r = Some en"
      and flds: "sat_id en = satellite_db_id r" "sat_name en = name r"
        "norad_id en = norad_cat_id r" "latitude en = fst (geo_pos pd)"
        "longitude en = fst (snd (geo_pos pd))" "altitude en = snd (snd (geo_pos pd))"
        "eci en = eci_pos pd"
      using object_snapshot_Some [OF fixed] by simp
    from snap r have mem: "en \<in> set ?sd"
      unfolding cycle_snapshot_mem by blast
    with flds(1) r have "en \<in> set (filter (\<lambda>en. sat_id en = a) ?sd)"
      by simp
    then have "en \<in> set (filter (\<lambda>en. sat_id en = a) ?sd')"
      by (simp only: ents)
    then have mem': "en \<in> set ?sd'"
      by simp
    from flds(1) r have "sat_id en = a"
      by simp
    with mem mem' flds show ?thesis
      by (intro exI [of _ en] conjI)
  qed
  have last: "\<forall>r pd. r \<in> set rows \<and> satellite_db_id r = a
                \<and> calculate_satellite_position ev (ts_now ev r) (line1 r) (line2 r)
                    = Inr (Some pd) \<longrightarrow>
                (\<exists>en. en \<in> set ?sd \<and> en \<in> set ?sd' \<and> sat_id en = a
                   \<and> sat_name en = name r \<and> norad_id en = norad_cat_id r
                   \<and> latitude en = fst (geo_pos pd)
                   \<and> longitude en = fst (snd (geo_pos pd))
                   \<and> altitude en = snd (snd (geo_pos pd))
                   \<and> eci en = eci_pos pd)"
    by (intro allI impI) (rule present)
  show ?thesis
    by (intro exI conjI) (rule run run' ents trs last)+
qed

theorem failure_isolation_witness:
  "filter (\<lambda>r. satellite_db_id r = 1) [row_a, row_b_good]
     = filter (\<lambda>r. satellite_db_id r = 1) [row_a, row_b]
   \<and> list_all (agree_on demo_env demo_env) [row_a, row_b]
   \<and> calculate_satellite_position demo_env (ts_now demo_env row_b) (line1 row_b) (line2 row_b)
       = Inr None
   \<and> calculate_satellite_position demo_env (ts_now demo_env row_b_good) (line1 row_b_good)
       (line2 row_b_good) = Inr (Some \<lparr>eci_pos = (7000, 0, 0), geo_pos = (10, 20, 400)\<rparr>)
   \<and> (\<exists>sd pg sd' pg'.
          fan_out demo_env [row_a, row_b] [] [] = Inr (sd, pg)
        \<and> fan_out demo_env [row_a, row_b_good] [] [] = Inr (sd', pg')
        \<and> filter (\<lambda>en. sat_id en = 1) sd' = filter (\<lambda>en. sat_id en = 1) sd
        \<and> filter (\<lambda>tr. snd (snd tr) = 1) pg' = filter (\<lambda>tr. snd (snd tr) = 1) pg)"
proof -
  have same: "filter (\<lambda>r. satellite_db_id r = 1) [row_a, row_b_good]
                = filter (\<lambda>r. satellite_db_id r = 1) [row_a, row_b]"
    by (simp add: row_a_def row_b_def row_b_good_def)
  have ag: "agree_on demo_env demo_env r" for r
    by (simp add: agree_on_def)
  then have agree: "\<forall>r\<in>set [row_a, row_b]. satellite_db_id r = 1 \<longrightarrow> agree_on demo_env demo_env r"
    by simp
  have lagree: "list_all (agree_on demo_env demo_env) [row_a, row_b]"
    using ag by simp
  have good: "calculate_satellite_position demo_env (ts_now demo_env row_b_good)
                (line1 row_b_good) (line2 row_b_good)
              = Inr (Some \<lparr>eci_pos = (7000, 0, 0), geo_pos = (10, 20, 400)\<rparr>)"
    by (simp add: calculate_satellite_position_def position_try_def demo_env_def
          row_b_good_def demo_point_def)
  from failure_isolation [OF same agree]
  have "\<exists>sd pg sd' pg'.
          fan_out demo_env [row_a, row_b] [] [] = Inr (sd, pg)
        \<and> fan_out demo_env [row_a, row_b_good] [] [] = Inr (sd', pg')
        \<and> filter (\<lambda>en. sat_id en = 1) sd' = filter (\<lambda>en. sat_id en = 1) sd
        \<and> filter (\<lambda>tr. snd (snd tr) = 1) pg' = filter (\<lambda>tr. snd (snd tr) = 1) pg"
    by blast
  with same lagree demo_fix_b good show ?thesis
    by (intro conjI)
qed

end
